theory Spec2Isabelle
  imports Main "HOL-Library.Sublist" "HOL-Library.AList"
begin

section \<open>The metadata interpreter of \<open>pdf_parse_restapi_updatecolumnlevel.py\<close>\<close>

text \<open>
  This theory embeds the function \<open>extract_table_details_from_markdown\<close> (lines 168-394
  of the source). The function reads a sequence of files; each file is parsed by pandas
  into a data frame, and the rows of that frame are interpreted one after the other with
  a state that survives from row to row and from file to file.

  Reading the files, filtering separator lines and \<open>pd.read_csv\<close> are library calls;
  the embedding starts where the source's own logic starts, at the loop over the rows of a
  data frame (line 213). A row is represented by the five strings \<open>col1\<close> .. \<open>col5\<close>
  that lines 216-220 compute from it (\<open>str(...).strip()\<close> of the cells \<open>column_1\<close> ..
  \<open>column_5\<close>, the empty string for a column the frame does not have, \<open>nan\<close> for an
  empty cell). The look-ahead of lines 300-302 reads \<open>column_1\<close> and \<open>column_2\<close> of
  the next row of the same frame by the same expression, so it reads \<open>col1\<close> and
  \<open>col2\<close> of the next row of the document. The \<open>try\<close> of line 215 guards only
  these five conversions, which do not raise on cells read by pandas. A character of a
  string stands for one character of the Python string, so \<open>length\<close> is Python's
  \<open>len\<close>. A file that cannot be read or parsed raises before its first row and is
  skipped by the handler of line 387: it is a document without rows.
\<close>

subsection \<open>Data\<close>

record row =
  col1 :: string
  col2 :: string
  col3 :: string
  col4 :: string
  col5 :: string

type_synonym document = "row list"

text \<open>The dictionary stored for one field (lines 308-312): keys \<open>type\<close>,
  \<open>description\<close>, \<open>foreign_key\<close>.\<close>

record field_info =
  data_type :: string
  description :: string
  foreign_key :: string

text \<open>The dictionary stored for one table (lines 235-241). Python dictionaries keep
  insertion order, and assigning to a key that exists keeps its position: the two field
  dictionaries are association lists changed by \<^const>\<open>AList.update\<close>.\<close>

record table_metadata =
  Table_Name :: string
  Table_Synonym :: "string option"
  Table_Description :: "string option"
  Module_Name :: "string option"
  Key_Fields :: "(string \<times> field_info) list"
  Normal_Fields :: "(string \<times> field_info) list"

text \<open>The local variables \<open>current_Key_Field_Fullname\<close> and
  \<open>current_Normal_Field_Fullname\<close> are not assigned before the first section start
  (lines 270 and 277): reading one before that raises \<open>UnboundLocalError\<close>.\<close>

datatype fullname = Unbound | PyNone | PyStr string

datatype error = KeyError | UnboundLocalError

record parser_state =
  results :: "string list"
  in_key_field_section :: bool
  in_field_section :: bool
  table_name :: "string option"
  metadata :: "(string \<times> table_metadata) list"
  current_Key_Field_Fullname :: fullname
  current_Normal_Field_Fullname :: fullname

text \<open>Lines 170-177.\<close>

definition init_state :: parser_state where
  "init_state =
     \<lparr>results = [], in_key_field_section = False, in_field_section = False,
      table_name = None, metadata = [],
      current_Key_Field_Fullname = Unbound, current_Normal_Field_Fullname = Unbound\<rparr>"

subsection \<open>The two field sections\<close>

text \<open>
  Lines 289-327 (key fields) and 331-376 (normal fields) are the same code up to the
  dictionary (\<open>"Key Fields"\<close> or \<open>"Normal Fields"\<close>) and the variable
  (\<open>current_Key_Field_Fullname\<close> or \<open>current_Normal_Field_Fullname\<close>) they use, and
  up to diagnostic prints. They are embedded once, with the section as a parameter.
\<close>

datatype field_section = KeySec | NormalSec

fun fields_of :: "field_section \<Rightarrow> table_metadata \<Rightarrow> (string \<times> field_info) list" where
  "fields_of KeySec m = Key_Fields m"
| "fields_of NormalSec m = Normal_Fields m"

fun set_fields :: "field_section \<Rightarrow> (string \<times> field_info) list \<Rightarrow> table_metadata \<Rightarrow> table_metadata" where
  "set_fields KeySec fs m = m\<lparr>Key_Fields := fs\<rparr>"
| "set_fields NormalSec fs m = m\<lparr>Normal_Fields := fs\<rparr>"

fun fullname_of :: "field_section \<Rightarrow> parser_state \<Rightarrow> fullname" where
  "fullname_of KeySec s = current_Key_Field_Fullname s"
| "fullname_of NormalSec s = current_Normal_Field_Fullname s"

fun set_fullname :: "field_section \<Rightarrow> fullname \<Rightarrow> parser_state \<Rightarrow> parser_state" where
  "set_fullname KeySec n s = s\<lparr>current_Key_Field_Fullname := n\<rparr>"
| "set_fullname NormalSec n s = s\<lparr>current_Normal_Field_Fullname := n\<rparr>"

text \<open>The dictionary literal of lines 308-312, 316-320, 351-355 and 360-364.\<close>

definition new_field_info :: "row \<Rightarrow> field_info" where
  "new_field_info r =
     \<lparr>data_type = col3 r, description = col4 r,
      foreign_key = (if col5 r \<noteq> ''nan'' then col5 r else '''')\<rparr>"

text \<open>\<open>metadata[table_name][section][name] = info\<close>: the subscript
  \<open>metadata[table_name]\<close> raises \<open>KeyError\<close> for a name that has no record.\<close>

definition store_field ::
  "field_section \<Rightarrow> string \<Rightarrow> string \<Rightarrow> field_info \<Rightarrow> parser_state \<Rightarrow> error option \<times> parser_state" where
  "store_field sec t n info s =
     (case map_of (metadata s) t of
        None \<Rightarrow> (Some KeyError, s)
      | Some m \<Rightarrow>
          (None, s\<lparr>metadata :=
             AList.update t (set_fields sec (AList.update n info (fields_of sec m)) m) (metadata s)\<rparr>))"

text \<open>Lines 296-320 and 340-364: the row is an entry header. A name of 19 characters or
  more is taken as cut off and is completed from the next row of the frame, when there
  is one and neither its \<open>col1\<close> nor its \<open>col2\<close> is \<open>nan\<close>; otherwise nothing is
  stored and the current full name is left as it is.\<close>

definition header_row ::
  "field_section \<Rightarrow> string \<Rightarrow> parser_state \<Rightarrow> row \<Rightarrow> row option \<Rightarrow> error option \<times> parser_state" where
  "header_row sec t s r nxt =
     (if 19 \<le> length (col2 r) then
        (case nxt of
           None \<Rightarrow> (None, s)
         | Some next_row \<Rightarrow>
             if col1 next_row \<noteq> ''nan'' \<and> col2 next_row \<noteq> ''nan'' then
               store_field sec t (col2 r @ col2 next_row) (new_field_info r)
                 (set_fullname sec (PyStr (col2 r @ col2 next_row)) s)
             else (None, s))
      else store_field sec t (col2 r) (new_field_info r) (set_fullname sec (PyStr (col2 r)) s))"

text \<open>Lines 322-327 and 371-376: any other row of a field section continues the
  description of the current field. The condition is evaluated from the left: the
  variable first (unbound: error; \<open>None\<close> or the empty string: false), then \<open>desc\<close>.\<close>

definition continuation_row ::
  "field_section \<Rightarrow> string \<Rightarrow> parser_state \<Rightarrow> row \<Rightarrow> error option \<times> parser_state" where
  "continuation_row sec t s r =
     (case fullname_of sec s of
        Unbound \<Rightarrow> (Some UnboundLocalError, s)
      | PyNone \<Rightarrow> (None, s)
      | PyStr n \<Rightarrow>
          if n \<noteq> [] \<and> col4 r \<noteq> ''nan'' \<and> col4 r \<noteq> ''Unnamed: 3'' \<and> col4 r \<noteq> [] then
            (case map_of (metadata s) t of
               None \<Rightarrow> (Some KeyError, s)
             | Some m \<Rightarrow>
                 (case map_of (fields_of sec m) n of
                    None \<Rightarrow> (Some KeyError, s)
                  | Some info \<Rightarrow>
                      (None, s\<lparr>metadata :=
                         AList.update t
                           (set_fields sec
                              (AList.update n
                                 (info\<lparr>description := description info @ '' '' @ col4 r\<rparr>)
                                 (fields_of sec m)) m)
                           (metadata s)\<rparr>)))
          else (None, s))"

text \<open>Lines 294 and 338: the test that separates entry headers from continuation rows.\<close>

definition field_row ::
  "field_section \<Rightarrow> string \<Rightarrow> parser_state \<Rightarrow> row \<Rightarrow> row option \<Rightarrow> error option \<times> parser_state" where
  "field_row sec t s r nxt =
     (if col1 r = ''nan'' \<and> col2 r \<noteq> [] \<and> col2 r \<noteq> ''nan''
      then header_row sec t s r nxt
      else continuation_row sec t s r)"

subsection \<open>One row\<close>

text \<open>The record of lines 235-241.\<close>

definition new_table :: "string \<Rightarrow> table_metadata" where
  "new_table t =
     \<lparr>Table_Name = t, Table_Synonym = None, Table_Description = None, Module_Name = None,
      Key_Fields = [], Normal_Fields = []\<rparr>"

text \<open>Lines 250-251, 256-257 and 261-262: \<open>if metadata[table_name]: ...\<close>. The
  subscript is evaluated first and raises \<open>KeyError\<close> when \<open>table_name\<close> is \<open>None\<close>
  (no key of the dictionary is \<open>None\<close>) or has no record; a record is a dictionary of six
  keys and so is true.\<close>

definition update_table ::
  "(table_metadata \<Rightarrow> table_metadata) \<Rightarrow> parser_state \<Rightarrow> error option \<times> parser_state" where
  "update_table f s =
     (case table_name s of
        None \<Rightarrow> (Some KeyError, s)
      | Some t \<Rightarrow>
          (case map_of (metadata s) t of
             None \<Rightarrow> (Some KeyError, s)
           | Some m \<Rightarrow> (None, s\<lparr>metadata := AList.update t (f m) (metadata s)\<rparr>)))"

text \<open>
  The body of the loop over the rows (lines 225-376) for the row \<open>r\<close>, with \<open>nxt\<close> the
  next row of the same frame if there is one. The result is the state after the row and
  the exception the row raised, if any. The branch of line 280 tests \<open>col2 is None\<close> on a
  value that is always a string; it is never taken and is written as \<open>False\<close>.
\<close>

definition process_row :: "parser_state \<Rightarrow> row \<Rightarrow> row option \<Rightarrow> error option \<times> parser_state" where
  "process_row s r nxt =
     (if sublist ''Table Name'' (col2 r) then
        (None, s\<lparr>table_name := Some (col3 r),
                 results := results s @ [col3 r],
                 in_field_section := False,
                 in_key_field_section := False,
                 metadata := AList.update (col3 r) (new_table (col3 r)) (metadata s)\<rparr>)
      else if sublist ''Table Synonym'' (col2 r) then
        update_table (\<lambda>m. m\<lparr>Table_Synonym := Some (col3 r)\<rparr>) s
      else if sublist ''Table Comments'' (col2 r) then
        update_table (\<lambda>m. m\<lparr>Table_Description := Some (col3 r)\<rparr>) s
      else if sublist ''Module Name'' (col2 r) then
        update_table (\<lambda>m. m\<lparr>Module_Name := Some (col3 r)\<rparr>) s
      else if sublist ''Key Field Name'' (col2 r) then
        (None, s\<lparr>in_key_field_section := True, in_field_section := False,
                 current_Key_Field_Fullname := PyNone\<rparr>)
      else if sublist ''Field Name'' (col2 r) then
        (None, s\<lparr>in_field_section := True, in_key_field_section := False,
                 current_Normal_Field_Fullname := PyNone\<rparr>)
      else if False then (None, s)
      else
        (case table_name s of
           None \<Rightarrow> (None, s)
         | Some t \<Rightarrow>
             if t = [] then (None, s)
             else if in_key_field_section s then field_row KeySec t s r nxt
             else if in_field_section s then field_row NormalSec t s r nxt
             else (None, s)))"

subsection \<open>The rows of a file, the files, the function\<close>

text \<open>Lines 213-376 run inside the \<open>try\<close> of line 180: an exception raised by a row
  ends the rows of that file (line 387 prints it), with the state as the row left it.\<close>

fun process_rows :: "parser_state \<Rightarrow> row list \<Rightarrow> error option \<times> parser_state" where
  "process_rows s [] = (None, s)"
| "process_rows s (r # rs) =
     (case process_row s r (case rs of [] \<Rightarrow> None | next_row # _ \<Rightarrow> Some next_row) of
        (Some e, s') \<Rightarrow> (Some e, s')
      | (None, s') \<Rightarrow> process_rows s' rs)"

text \<open>Lines 179-388: the files in order; the state is carried from one to the next.\<close>

fun process_files :: "parser_state \<Rightarrow> document list \<Rightarrow> parser_state" where
  "process_files s [] = s"
| "process_files s (d # ds) = process_files (snd (process_rows s d)) ds"

text \<open>Lines 171-173 and 394: the function returns the empty list when there is no file,
  and the dictionary \<open>metadata\<close> otherwise. The list \<open>results\<close> is local.\<close>

datatype return_value =
  Return_list "string list"
| Return_metadata "(string \<times> table_metadata) list"

definition extract_table_details_from_markdown :: "document list \<Rightarrow> return_value" where
  "extract_table_details_from_markdown files =
     (if files = [] then Return_list []
      else Return_metadata (metadata (process_files init_state files)))"

subsection \<open>Observations on states and rows\<close>

text \<open>The flag of a section, and the section that line 289 or line 331 selects: the key
  section is tested first.\<close>

definition in_section :: "field_section \<Rightarrow> parser_state \<Rightarrow> bool" where
  "in_section sec s = (case sec of KeySec \<Rightarrow> in_key_field_section s | NormalSec \<Rightarrow> in_field_section s)"

definition section_mode :: "parser_state \<Rightarrow> field_section option" where
  "section_mode s =
     (if in_key_field_section s then Some KeySec
      else if in_field_section s then Some NormalSec else None)"

text \<open>A row that reaches the last branch (line 283): \<open>col2\<close> holds none of the six
  markers of lines 225-274.\<close>

definition is_data_row :: "row \<Rightarrow> bool" where
  "is_data_row r \<longleftrightarrow>
     \<not> sublist ''Table Name'' (col2 r) \<and> \<not> sublist ''Table Synonym'' (col2 r) \<and>
     \<not> sublist ''Table Comments'' (col2 r) \<and> \<not> sublist ''Module Name'' (col2 r) \<and>
     \<not> sublist ''Key Field Name'' (col2 r) \<and> \<not> sublist ''Field Name'' (col2 r)"

text \<open>\<open>metadata[t][section].get(n)\<close>, with \<open>None\<close> also for a table without record.\<close>

definition lookup_field :: "parser_state \<Rightarrow> string \<Rightarrow> field_section \<Rightarrow> string \<Rightarrow> field_info option" where
  "lookup_field s t sec n =
     (case map_of (metadata s) t of None \<Rightarrow> None | Some m \<Rightarrow> map_of (fields_of sec m) n)"

text \<open>The states the loop can be in: the initial one, and the state after any row from
  such a state (whether the row raised or not).\<close>

inductive reachable :: "parser_state \<Rightarrow> bool" where
  start: "reachable init_state"
| row: "reachable s \<Longrightarrow> reachable (snd (process_row s r nxt))"

text \<open>What every such state satisfies: the current table has a record, and inside a
  section the variable of the section is bound and, when it is a string, is not empty
  and names a field of the current table, whose name is not empty either.\<close>

definition consistent :: "parser_state \<Rightarrow> bool" where
  "consistent s \<longleftrightarrow>
     (\<forall>t. table_name s = Some t \<longrightarrow> map_of (metadata s) t \<noteq> None) \<and>
     (\<forall>sec. in_section sec s \<longrightarrow>
        fullname_of sec s \<noteq> Unbound \<and>
        (\<forall>n. fullname_of sec s = PyStr n \<longrightarrow>
           n \<noteq> [] \<and>
           (\<exists>t. table_name s = Some t \<and> t \<noteq> [] \<and> lookup_field s t sec n \<noteq> None)))"

text \<open>The names of the fields of every table, in the order of the dictionaries.\<close>

definition field_names :: "parser_state \<Rightarrow> (string \<times> string list \<times> string list) list" where
  "field_names s = map (\<lambda>(t, m). (t, map fst (Key_Fields m), map fst (Normal_Fields m))) (metadata s)"

text \<open>The keys of \<open>metadata\<close> are the names of \<open>results\<close>, each once, in the order of
  their first occurrence.\<close>

definition keys_follow_results :: "parser_state \<Rightarrow> bool" where
  "keys_follow_results s \<longleftrightarrow> map fst (metadata s) = rev (remdups (rev (results s)))"


text \<open>A shorter way to write a row in examples.\<close>

abbreviation cells :: "string \<Rightarrow> string \<Rightarrow> string \<Rightarrow> string \<Rightarrow> string \<Rightarrow> row" where
  "cells a b c d e \<equiv> \<lparr>col1 = a, col2 = b, col3 = c, col4 = d, col5 = e\<rparr>"

section \<open>Properties\<close>

subsection \<open>The invariant of the loop\<close>

lemma fields_of_set_fields:
  "fields_of sec' (set_fields sec fs m) = (if sec' = sec then fs else fields_of sec' m)"
  by (cases sec; cases sec') simp_all

lemma fullname_of_set_fullname:
  "fullname_of sec' (set_fullname sec n s) = (if sec' = sec then n else fullname_of sec' s)"
  by (cases sec; cases sec') simp_all

lemma set_fullname_simps:
  "metadata (set_fullname sec n s) = metadata s"
  "table_name (set_fullname sec n s) = table_name s"
  "results (set_fullname sec n s) = results s"
  "in_key_field_section (set_fullname sec n s) = in_key_field_section s"
  "in_field_section (set_fullname sec n s) = in_field_section s"
  by (cases sec; simp)+

lemma in_section_set_fullname: "in_section sec' (set_fullname sec n s) = in_section sec' s"
  by (cases sec'; simp add: in_section_def set_fullname_simps)

lemma in_section_metadata_update: "in_section sec (s\<lparr>metadata := x\<rparr>) = in_section sec s"
  by (cases sec; simp add: in_section_def)

lemma fullname_of_metadata_update: "fullname_of sec (s\<lparr>metadata := x\<rparr>) = fullname_of sec s"
  by (cases sec; simp)

lemma lookup_field_update:
  "lookup_field (s\<lparr>metadata := AList.update t m (metadata s)\<rparr>) t' sec n =
     (if t' = t then map_of (fields_of sec m) n else lookup_field s t' sec n)"
  by (simp add: lookup_field_def update_conv')

lemma consistent_init: "consistent init_state"
  by (simp add: consistent_def init_state_def in_section_def split: field_section.split)

lemma consistent_store_field:
  assumes "consistent s" "table_name s = Some t" "n \<noteq> []" "in_section sec s" "t \<noteq> []"
  shows "consistent (snd (store_field sec t n info (set_fullname sec (PyStr n) s)))"
proof -
  obtain m where m: "map_of (metadata s) t = Some m"
    using assms(1,2) by (auto simp: consistent_def)
  show ?thesis
    using assms m
    by (auto simp: consistent_def store_field_def set_fullname_simps update_conv'
        in_section_set_fullname in_section_metadata_update fullname_of_metadata_update
        fullname_of_set_fullname lookup_field_update fields_of_set_fields lookup_field_def)
qed

lemma consistent_header_row:
  assumes "consistent s" "table_name s = Some t" "col2 r \<noteq> []" "in_section sec s" "t \<noteq> []"
  shows "consistent (snd (header_row sec t s r nxt))"
  using assms consistent_store_field[OF assms(1,2) _ assms(4,5)]
  by (auto simp: header_row_def split: option.splits)

lemma consistent_continuation_row:
  assumes "consistent s" "table_name s = Some t" "in_section sec s"
  shows "consistent (snd (continuation_row sec t s r))"
  using assms
  by (auto simp: continuation_row_def consistent_def update_conv'
        in_section_metadata_update fullname_of_metadata_update
        lookup_field_update fields_of_set_fields lookup_field_def
      split: fullname.splits option.splits)

lemma consistent_field_row:
  assumes "consistent s" "table_name s = Some t" "in_section sec s" "t \<noteq> []"
  shows "consistent (snd (field_row sec t s r nxt))"
  using assms by (simp add: field_row_def consistent_header_row consistent_continuation_row)

lemma consistent_update_table:
  assumes "consistent s" "\<And>m sec. fields_of sec (f m) = fields_of sec m"
  shows "consistent (snd (update_table f s))"
proof (cases "table_name s")
  case None
  then show ?thesis using assms(1) by (simp add: update_table_def)
next
  case (Some t)
  show ?thesis
  proof (cases "map_of (metadata s) t")
    case None
    then show ?thesis using assms(1) Some by (simp add: update_table_def)
  next
    case (Some m)
    have "lookup_field (s\<lparr>metadata := AList.update t (f m) (metadata s)\<rparr>) t' sec n = lookup_field s t' sec n"
      for t' sec n
      using Some assms(2) by (simp add: lookup_field_update) (simp add: lookup_field_def)
    then show ?thesis
      using assms(1) Some \<open>table_name s = Some t\<close>
      by (simp add: update_table_def consistent_def update_conv'
        in_section_metadata_update fullname_of_metadata_update)
  qed
qed

lemma fields_of_attr:
  "fields_of sec (m\<lparr>Table_Synonym := x\<rparr>) = fields_of sec m"
  "fields_of sec (m\<lparr>Table_Description := x\<rparr>) = fields_of sec m"
  "fields_of sec (m\<lparr>Module_Name := x\<rparr>) = fields_of sec m"
  by (cases sec; simp)+

lemma consistent_process_row:
  assumes "consistent s"
  shows "consistent (snd (process_row s r nxt))"
proof -
  have tn: "consistent (s\<lparr>table_name := Some (col3 r), results := results s @ [col3 r],
                 in_field_section := False, in_key_field_section := False,
                 metadata := AList.update (col3 r) (new_table (col3 r)) (metadata s)\<rparr>)"
    by (simp add: consistent_def update_conv' in_section_def split: field_section.split)
  have ks: "consistent (s\<lparr>in_key_field_section := True, in_field_section := False,
                 current_Key_Field_Fullname := PyNone\<rparr>)"
    using assms by (simp add: consistent_def in_section_def lookup_field_def split: field_section.split)
  have fs: "consistent (s\<lparr>in_field_section := True, in_key_field_section := False,
                 current_Normal_Field_Fullname := PyNone\<rparr>)"
    using assms by (simp add: consistent_def in_section_def lookup_field_def split: field_section.split)
  show ?thesis
    using assms tn ks fs
    by (simp add: process_row_def consistent_update_table fields_of_attr consistent_field_row
        in_section_def split: option.split)
qed

lemma reachable_consistent: "reachable s \<Longrightarrow> consistent s"
  by (induction rule: reachable.induct) (simp_all add: consistent_init consistent_process_row)

lemma reachable_process_rows: "reachable s \<Longrightarrow> reachable (snd (process_rows s rs))"
proof (induction rs arbitrary: s)
  case Nil
  then show ?case by simp
next
  case (Cons r rs)
  let ?p = "process_row s r (case rs of [] \<Rightarrow> None | next_row # _ \<Rightarrow> Some next_row)"
  have "reachable (snd ?p)" using Cons.prems by (rule reachable.row)
  then show ?case
    using Cons.IH[of "snd ?p"] by (cases ?p) (auto split: option.splits)
qed

lemma reachable_process_files: "reachable s \<Longrightarrow> reachable (process_files s docs)"
  by (induction docs arbitrary: s) (simp_all add: reachable_process_rows)

subsection \<open>Dispatch of a row\<close>

lemma section_mode_in_section: "section_mode s = Some sec \<Longrightarrow> in_section sec s"
  by (cases sec) (auto simp: section_mode_def in_section_def split: if_splits)

lemma process_row_data:
  assumes "is_data_row r" "table_name s = Some t" "t \<noteq> []" "section_mode s = Some sec"
  shows "process_row s r nxt = field_row sec t s r nxt"
  using assms by (cases sec) (auto simp: process_row_def is_data_row_def section_mode_def split: if_splits)

lemma blank_not_marker:
  assumes "c = [] \<or> c = ''nan''"
  shows "\<not> sublist ''Table Name'' c" "\<not> sublist ''Table Synonym'' c"
    "\<not> sublist ''Table Comments'' c" "\<not> sublist ''Module Name'' c"
    "\<not> sublist ''Key Field Name'' c" "\<not> sublist ''Field Name'' c"
  using assms by (auto simp: sublist_Cons_right)


lemma map_update_same:
  "map_of al k = Some v \<Longrightarrow> g (k, v') = g (k, v) \<Longrightarrow> map g (AList.update k v' al) = map g al"
  by (induction al) (auto split: if_splits)

lemma store_field_ok:
  assumes "map_of (metadata s) t = Some m"
  shows "fst (store_field sec t n info s) = None"
    and "lookup_field (snd (store_field sec t n info s)) t sec n = Some info"
    and "fullname_of sec' (snd (store_field sec t n info s)) = fullname_of sec' s"
  using assms
  by (simp_all add: store_field_def lookup_field_update fields_of_set_fields update_conv'
      fullname_of_metadata_update)

subsection \<open>Rows before any table name\<close>

text \<open>
  Claim C1. A row processed before any \<open>Table Name\<close> row has set the current table is
  meant to be dropped without error, the rows after it being processed as usual; the
  claim includes synonym, comments and module rows. The source does not do this for these
  three kinds: with \<open>table_name\<close> still \<open>None\<close>, the guard \<open>if metadata[table_name]\<close>
  of line 250 raises \<open>KeyError\<close>, the handler of line 387 ends the file, and the
  \<open>Table Name\<close> row that follows in the same file is never processed: the function
  returns an empty dictionary.
\<close>

theorem synonym_before_table_name_raises:
  "process_rows init_state
     [(cells ''nan'' ''Table Synonym'' ''S'' ''nan'' ''nan''),
      (cells ''nan'' ''Table Name'' ''T'' ''nan'' ''nan'')]
     = (Some KeyError, init_state)
   \<and> extract_table_details_from_markdown
     [[(cells ''nan'' ''Table Synonym'' ''S'' ''nan'' ''nan''),
       (cells ''nan'' ''Table Name'' ''T'' ''nan'' ''nan'')]]
     = Return_metadata []"
  by code_simp

lemma no_table_process_row:
  assumes "table_name s = None" "\<not> sublist ''Table Name'' (col2 r)"
  shows "table_name (snd (process_row s r nxt)) = None \<and>
         metadata (snd (process_row s r nxt)) = metadata s \<and>
         results (snd (process_row s r nxt)) = results s"
  using assms by (simp add: process_row_def update_table_def)

lemma no_table_process_rows:
  assumes "table_name s = None" "\<forall>r\<in>set rs. \<not> sublist ''Table Name'' (col2 r)"
  shows "table_name (snd (process_rows s rs)) = None \<and>
         metadata (snd (process_rows s rs)) = metadata s \<and>
         results (snd (process_rows s rs)) = results s"
  using assms
proof (induction rs arbitrary: s)
  case Nil
  then show ?case by simp
next
  case (Cons r rs)
  let ?p = "process_row s r (case rs of [] \<Rightarrow> None | next_row # _ \<Rightarrow> Some next_row)"
  have p: "table_name (snd ?p) = None \<and> metadata (snd ?p) = metadata s \<and> results (snd ?p) = results s"
    using Cons.prems by (intro no_table_process_row) simp_all
  show ?case
  proof (cases "fst ?p")
    case None
    then have "process_rows s (r # rs) = process_rows (snd ?p) rs"
      by (cases ?p) simp
    then show ?thesis using Cons.IH[of "snd ?p"] p Cons.prems(2) by simp
  next
    case (Some e)
    then have "process_rows s (r # rs) = ?p"
      by (cases ?p) simp
    then show ?thesis using p by simp
  qed
qed

text \<open>
  Claim C2, as amended. As long as no row with \<open>Table Name\<close> in column 2 has been
  processed, whatever the documents hold, the metadata stay empty (so there is no field
  entry in any collection), no table is current and no name has been recorded. The claim
  also says that the section mode is still \<open>NONE\<close>; that part fails, since lines
  265-277 set the section flags without looking at \<open>table_name\<close> (the counterexample
  below), and the amended claim leaves the flags out.
\<close>

theorem no_table_name_no_entries:
  assumes "\<forall>d\<in>set docs. \<forall>r\<in>set d. \<not> sublist ''Table Name'' (col2 r)"
  shows "metadata (process_files init_state docs) = [] \<and>
         table_name (process_files init_state docs) = None \<and>
         results (process_files init_state docs) = []"
proof -
  have "table_name (process_files s docs) = None \<and>
        metadata (process_files s docs) = metadata s \<and>
        results (process_files s docs) = results s"
    if "table_name s = None" for s
    using that assms
  proof (induction docs arbitrary: s)
    case Nil
    then show ?case by simp
  next
    case (Cons d docs)
    have "table_name (snd (process_rows s d)) = None \<and>
         metadata (snd (process_rows s d)) = metadata s \<and>
         results (snd (process_rows s d)) = results s"
      using Cons.prems by (intro no_table_process_rows) simp_all
    then show ?case using Cons.IH[of "snd (process_rows s d)"] Cons.prems(2) by simp
  qed
  from this[of init_state] show ?thesis by (simp add: init_state_def)
qed

theorem no_table_name_no_entries_witness:
  "metadata (process_files init_state
      [[cells ''nan'' ''Key Field Name'' ''Type'' ''Description'' ''Foreign Key'',
        cells ''nan'' ''acid'' ''VARCHAR2(11)'' ''Account id'' ''nan''],
       [cells ''nan'' ''Field Name'' ''Type'' ''Description'' ''Foreign Key'']]) = []"
proof -
  have h: "\<forall>d\<in>set [[cells ''nan'' ''Key Field Name'' ''Type'' ''Description'' ''Foreign Key'',
        cells ''nan'' ''acid'' ''VARCHAR2(11)'' ''Account id'' ''nan''],
       [cells ''nan'' ''Field Name'' ''Type'' ''Description'' ''Foreign Key'']].
      \<forall>r\<in>set d. \<not> sublist ''Table Name'' (col2 r)"
    by (simp add: sublist_Cons_right)
  from no_table_name_no_entries[OF h] show ?thesis by (rule conjunct1)
qed

text \<open>The claim C2 as stated fails: a key-field section start before any table name
  sets \<open>in_key_field_section\<close>.\<close>

theorem section_start_without_table_counterexample:
  "\<not> sublist ''Table Name'' (col2 (cells ''nan'' ''Key Field Name'' ''Type'' ''Description'' ''Foreign Key''))
   \<and> in_key_field_section (process_files init_state
        [[cells ''nan'' ''Key Field Name'' ''Type'' ''Description'' ''Foreign Key'']])"
  by (simp add: sublist_Cons_right process_row_def init_state_def)

subsection \<open>Entry headers\<close>




lemma field_names_continuation_row:
  "field_names (snd (continuation_row sec t s r)) = field_names s"
proof -
  have "map (\<lambda>(t, m). (t, map fst (Key_Fields m), map fst (Normal_Fields m)))
          (AList.update t (set_fields sec (AList.update n info' (fields_of sec m)) m) al) =
        map (\<lambda>(t, m). (t, map fst (Key_Fields m), map fst (Normal_Fields m))) al"
    if "map_of al t = Some m" "map_of (fields_of sec m) n = Some info" for al m n info info'
  proof (rule map_update_same[OF that(1)])
    have "map fst (AList.update n info' (fields_of sec m)) = map fst (fields_of sec m)"
      by (rule map_update_same[OF that(2)]) simp
    then show "(case (t, set_fields sec (AList.update n info' (fields_of sec m)) m) of
           (t, m) \<Rightarrow> (t, map fst (Key_Fields m), map fst (Normal_Fields m))) =
          (case (t, m) of (t, m) \<Rightarrow> (t, map fst (Key_Fields m), map fst (Normal_Fields m)))"
      by (cases sec) simp_all
  qed
  then show ?thesis
    by (simp add: continuation_row_def field_names_def split: fullname.split option.split)
qed

text \<open>
  Claim C4, as amended. In a state the loop can be in, with a current table of non-empty
  name and a field section selected, a data row is handled as an entry header if and only
  if its column 1 is the literal \<open>nan\<close> and its column 2 is neither empty nor
  \<open>nan\<close>. A header with a name shorter than 19 characters stores the entry of the row
  under column 2 and makes it the pending name. Every other row is handled as a
  continuation row: it adds no entry to any collection of any table, and leaves the
  pending name as it is.
\<close>

theorem header_iff_col1_nan:
  assumes "reachable s"
    and "table_name s = Some t" and "t \<noteq> []"
    and "section_mode s = Some sec"
    and "is_data_row r"
  shows "(col1 r = ''nan'' \<and> col2 r \<noteq> [] \<and> col2 r \<noteq> ''nan'' \<longrightarrow>
            process_row s r nxt = header_row sec t s r nxt \<and>
            (length (col2 r) < 19 \<longrightarrow>
               lookup_field (snd (process_row s r nxt)) t sec (col2 r) =
                 Some \<lparr>data_type = col3 r, description = col4 r,
                       foreign_key = (if col5 r = ''nan'' then '''' else col5 r)\<rparr> \<and>
               fullname_of sec (snd (process_row s r nxt)) = PyStr (col2 r)))
       \<and> (\<not> (col1 r = ''nan'' \<and> col2 r \<noteq> [] \<and> col2 r \<noteq> ''nan'') \<longrightarrow>
            process_row s r nxt = continuation_row sec t s r \<and>
            field_names (snd (process_row s r nxt)) = field_names s \<and>
            fullname_of sec (snd (process_row s r nxt)) = fullname_of sec s)"
proof -
  have "consistent s" using assms(1) by (rule reachable_consistent)
  then obtain m where m: "map_of (metadata s) t = Some m"
    using assms(2) by (auto simp: consistent_def)
  let ?s = "set_fullname sec (PyStr (col2 r)) s"
  have m': "map_of (metadata ?s) t = Some m" using m by (simp add: set_fullname_simps)
  note d = process_row_data[OF assms(5,2,3,4), of nxt]
  have short: "header_row sec t s r nxt = store_field sec t (col2 r) (new_field_info r) ?s"
    if "length (col2 r) < 19"
    using that by (simp add: header_row_def)
  have fn: "fullname_of sec (snd (continuation_row sec t s r)) = fullname_of sec s"
    by (simp add: continuation_row_def fullname_of_metadata_update split: fullname.split option.split)
  show ?thesis
    using d short store_field_ok(2)[OF m', of sec "col2 r" "new_field_info r"]
      store_field_ok(3)[OF m', of sec sec "col2 r" "new_field_info r"]
      field_names_continuation_row[of sec t s r] fn
    by (auto simp: field_row_def new_field_info_def fullname_of_set_fullname)
qed

theorem header_iff_col1_nan_witness:
  "process_row
     (snd (process_rows init_state
        [cells ''nan'' ''Table Name'' ''ACCT'' ''nan'' ''nan'',
         cells ''nan'' ''Field Name'' ''Type'' ''Description'' ''Foreign Key'']))
     (cells ''nan'' ''status'' ''CHAR(1)'' ''Current'' ''nan'') None
   = (None,
      \<lparr>results = [''ACCT''], in_key_field_section = False, in_field_section = True,
       table_name = Some ''ACCT'',
       metadata = [(''ACCT'',
          \<lparr>Table_Name = ''ACCT'', Table_Synonym = None, Table_Description = None,
           Module_Name = None, Key_Fields = [],
           Normal_Fields = [(''status'', \<lparr>data_type = ''CHAR(1)'', description = ''Current'',
                                          foreign_key = ''''\<rparr>)]\<rparr>)],
       current_Key_Field_Fullname = Unbound,
       current_Normal_Field_Fullname = PyStr ''status''\<rparr>)"
proof -
  let ?rs = "[cells ''nan'' ''Table Name'' ''ACCT'' ''nan'' ''nan'',
         cells ''nan'' ''Field Name'' ''Type'' ''Description'' ''Foreign Key'']"
  have r: "reachable (snd (process_rows init_state ?rs))"
    by (rule reachable_process_rows[OF reachable.start])
  have e: "snd (process_rows init_state ?rs) =
      \<lparr>results = [''ACCT''], in_key_field_section = False, in_field_section = True,
       table_name = Some ''ACCT'',
       metadata = [(''ACCT'',
          \<lparr>Table_Name = ''ACCT'', Table_Synonym = None, Table_Description = None,
           Module_Name = None, Key_Fields = [], Normal_Fields = []\<rparr>)],
       current_Key_Field_Fullname = Unbound,
       current_Normal_Field_Fullname = PyNone\<rparr>"
    by code_simp
  show ?thesis
    unfolding e
    using header_iff_col1_nan[OF r[unfolded e], of "''ACCT''" NormalSec
        "cells ''nan'' ''status'' ''CHAR(1)'' ''Current'' ''nan''" None]
    by (simp add: section_mode_def is_data_row_def sublist_Cons_right header_row_def
        store_field_def new_field_info_def)
qed

text \<open>The claim C4 as stated fails: it counts an empty column 1 as the sentinel, but a
  row with an empty column 1 and a field name in column 2 is not taken as a header; it
  raises nothing, changes nothing and stores no entry.\<close>

theorem header_empty_col1_counterexample:
  "(col1 (cells '''' ''status'' ''CHAR(1)'' ''Current'' ''nan'') = [] \<or>
    col1 (cells '''' ''status'' ''CHAR(1)'' ''Current'' ''nan'') = ''nan'')
   \<and> col2 (cells '''' ''status'' ''CHAR(1)'' ''Current'' ''nan'') \<noteq> []
   \<and> col2 (cells '''' ''status'' ''CHAR(1)'' ''Current'' ''nan'') \<noteq> ''nan''
   \<and> is_data_row (cells '''' ''status'' ''CHAR(1)'' ''Current'' ''nan'')
   \<and> process_row
        (snd (process_rows init_state
           [cells ''nan'' ''Table Name'' ''ACCT'' ''nan'' ''nan'',
            cells ''nan'' ''Field Name'' ''Type'' ''Description'' ''Foreign Key'']))
        (cells '''' ''status'' ''CHAR(1)'' ''Current'' ''nan'') None
      = (None,
         snd (process_rows init_state
           [cells ''nan'' ''Table Name'' ''ACCT'' ''nan'' ''nan'',
            cells ''nan'' ''Field Name'' ''Type'' ''Description'' ''Foreign Key'']))
   \<and> lookup_field
        (snd (process_rows init_state
           [cells ''nan'' ''Table Name'' ''ACCT'' ''nan'' ''nan'',
            cells ''nan'' ''Field Name'' ''Type'' ''Description'' ''Foreign Key'']))
        ''ACCT'' NormalSec ''status'' = None"
  by (simp add: is_data_row_def sublist_Cons_right lookup_field_def
      process_row_def field_row_def continuation_row_def init_state_def new_table_def)

subsection \<open>Continuation rows\<close>

text \<open>
  Claim C5. In a state the loop can be in, with a field section selected and a pending
  field name \<open>n\<close> set, a data row that is not an entry header (in particular every row
  whose column 1 is neither empty nor \<open>nan\<close>) with a column 4 that is not empty, not
  \<open>nan\<close> and not \<open>Unnamed: 3\<close> raises nothing and appends a space and column 4 to the
  description stored for \<open>n\<close> in the current table, in place: the entry keeps its
  position, type and foreign key, and nothing else in the state changes. The
  witness is the example of the claim: \<open>Current\<close> followed by \<open>value of account.\<close>
  gives \<open>Current value of account.\<close>
\<close>

theorem continuation_appends_description:
  assumes "reachable s"
    and "section_mode s = Some sec"
    and "is_data_row r"
    and "col1 r \<noteq> ''nan'' \<or> col2 r = [] \<or> col2 r = ''nan''"
    and "fullname_of sec s = PyStr n"
    and "col4 r \<noteq> []" and "col4 r \<noteq> ''nan''" and "col4 r \<noteq> ''Unnamed: 3''"
  shows "\<exists>t m info. table_name s = Some t \<and>
           map_of (metadata s) t = Some m \<and> map_of (fields_of sec m) n = Some info \<and>
           process_row s r nxt =
             (None, s\<lparr>metadata := AList.update t
                 (set_fields sec
                    (AList.update n (info\<lparr>description := description info @ '' '' @ col4 r\<rparr>)
                       (fields_of sec m)) m)
                 (metadata s)\<rparr>)"
proof -
  have c: "consistent s" using assms(1) by (rule reachable_consistent)
  have sec: "in_section sec s" using assms(2) by (rule section_mode_in_section)
  from c sec assms(5)
  have "n \<noteq> [] \<and> (\<exists>t. table_name s = Some t \<and> t \<noteq> [] \<and> lookup_field s t sec n \<noteq> None)"
    unfolding consistent_def by blast
  then obtain t where n: "n \<noteq> []" and t: "table_name s = Some t" "t \<noteq> []"
    and "lookup_field s t sec n \<noteq> None"
    by blast
  then obtain m info where m: "map_of (metadata s) t = Some m"
    and i: "map_of (fields_of sec m) n = Some info"
    by (auto simp: lookup_field_def split: option.splits)
  have "process_row s r nxt = continuation_row sec t s r"
    using process_row_data[OF assms(3) t assms(2)] assms(4) by (auto simp: field_row_def)
  then show ?thesis
    using m i n t assms(5-8) by (simp add: continuation_row_def)
qed

theorem continuation_appends_description_witness:
  "lookup_field
     (snd (process_row
        (snd (process_rows init_state
           [(cells ''nan'' ''Table Name'' ''ACCT'' ''nan'' ''nan''),
            (cells ''nan'' ''Field Name'' ''Type'' ''Description'' ''nan''),
            (cells ''nan'' ''status'' ''CHAR(1)'' ''Current'' ''nan'')]))
        (cells ''x'' ''nan'' ''nan'' ''value of account.'' ''nan'')
        None))
     ''ACCT'' NormalSec ''status''
   = Some \<lparr>data_type = ''CHAR(1)'', description = ''Current value of account.'', foreign_key = ''''\<rparr>"
proof -
  let ?rs = "[(cells ''nan'' ''Table Name'' ''ACCT'' ''nan'' ''nan''),
            (cells ''nan'' ''Field Name'' ''Type'' ''Description'' ''nan''),
            (cells ''nan'' ''status'' ''CHAR(1)'' ''Current'' ''nan'')]"
  have r: "reachable (snd (process_rows init_state ?rs))"
    by (rule reachable_process_rows[OF reachable.start])
  have e: "snd (process_rows init_state ?rs) =
      \<lparr>results = [''ACCT''], in_key_field_section = False, in_field_section = True,
       table_name = Some ''ACCT'',
       metadata = [(''ACCT'',
          \<lparr>Table_Name = ''ACCT'', Table_Synonym = None, Table_Description = None,
           Module_Name = None, Key_Fields = [],
           Normal_Fields = [(''status'', \<lparr>data_type = ''CHAR(1)'', description = ''Current'',
                                     foreign_key = ''''\<rparr>)]\<rparr>)],
       current_Key_Field_Fullname = Unbound,
       current_Normal_Field_Fullname = PyStr ''status''\<rparr>"
    by code_simp
  show ?thesis
    unfolding e
    using continuation_appends_description[OF r[unfolded e], of NormalSec
        "(cells ''x'' ''nan'' ''nan'' ''value of account.'' ''nan'')"
        "''status''" None]
    by (auto simp: section_mode_def is_data_row_def sublist_Cons_right lookup_field_def)
qed

subsection \<open>Table name rows\<close>















lemma raises_only_without_table:
  assumes "reachable s" "fst (process_row s r nxt) \<noteq> None"
  shows "table_name s = None \<and> \<not> sublist ''Table Name'' (col2 r) \<and>
         (sublist ''Table Synonym'' (col2 r) \<or> sublist ''Table Comments'' (col2 r) \<or>
          sublist ''Module Name'' (col2 r))"
proof -
  have c: "consistent s" using assms(1) by (rule reachable_consistent)
  have ut: "fst (update_table f s) = None" if "table_name s \<noteq> None" for f
    using c that by (auto simp: update_table_def consistent_def split: option.splits)
  have sf: "fst (store_field sec t n info (set_fullname sec x s)) = None"
    if "table_name s = Some t" for sec t n info x
    using c that by (auto simp: store_field_def consistent_def set_fullname_simps split: option.splits)
  have hr: "fst (header_row sec t s r nxt) = None" if "table_name s = Some t" for sec t
    using sf[OF that] by (simp add: header_row_def split: option.split)
  have cr: "fst (continuation_row sec t s r) = None"
    if "table_name s = Some t" "in_section sec s" for sec t
  proof (cases "fullname_of sec s")
    case Unbound
    then show ?thesis using c that by (simp add: consistent_def)
  next
    case PyNone
    then show ?thesis by (simp add: continuation_row_def)
  next
    case (PyStr n)
    with c that have "lookup_field s t sec n \<noteq> None"
      unfolding consistent_def by auto
    then show ?thesis using PyStr
      by (auto simp: continuation_row_def lookup_field_def split: option.splits)
  qed
  have fr: "fst (field_row sec t s r nxt) = None"
    if "table_name s = Some t" "in_section sec s" for sec t
    using hr[OF that(1)] cr[OF that] by (simp add: field_row_def)
  show ?thesis
    using assms(2) ut fr[of _ KeySec] fr[of _ NormalSec]
    by (auto simp: process_row_def in_section_def split: if_splits option.splits)
qed





subsection \<open>Blank rows\<close>

text \<open>
  Claim C7. A row whose columns 2, 3 and 4 are all empty (the empty string of an absent
  column, or \<open>nan\<close> of an empty cell) is a no-op in every state the loop can be in: it
  raises nothing and leaves the whole state as it is, so the table context, the section
  flags, the pending field names and the metadata are unchanged.
\<close>

theorem blank_row_no_op:
  assumes "reachable s"
    and "col2 r = [] \<or> col2 r = ''nan''"
    and "col3 r = [] \<or> col3 r = ''nan''"
    and "col4 r = [] \<or> col4 r = ''nan''"
  shows "process_row s r nxt = (None, s)"
proof -
  have c: "consistent s" using assms(1) by (rule reachable_consistent)
  have cont: "continuation_row sec t s r = (None, s)" if "in_section sec s" for sec t
    using c that assms(4)
    by (auto simp: continuation_row_def consistent_def split: fullname.splits)
  have fr: "field_row sec t s r nxt = (None, s)" if "in_section sec s" for sec t
    using assms(2) cont[OF that] by (auto simp: field_row_def)
  show ?thesis
    using blank_not_marker[OF assms(2)] fr[of KeySec] fr[of NormalSec]
    by (simp add: process_row_def in_section_def split: option.split)
qed

theorem blank_row_no_op_witness:
  "process_row
     (snd (process_rows init_state
        [(cells ''nan'' ''Table Name'' ''ACCT'' ''nan'' ''nan''),
         (cells ''nan'' ''Key Field Name'' ''Type'' ''Description'' ''nan''),
         (cells ''nan'' ''acid'' ''VARCHAR2(11)'' ''Account id'' ''nan'')]))
     (cells ''1'' ''nan'' '''' ''nan'' ''x'') None
   = (None,
      \<lparr>results = [''ACCT''], in_key_field_section = True, in_field_section = False,
       table_name = Some ''ACCT'',
       metadata = [(''ACCT'',
          \<lparr>Table_Name = ''ACCT'', Table_Synonym = None, Table_Description = None,
           Module_Name = None,
           Key_Fields = [(''acid'', \<lparr>data_type = ''VARCHAR2(11)'', description = ''Account id'',
                                     foreign_key = ''''\<rparr>)],
           Normal_Fields = []\<rparr>)],
       current_Key_Field_Fullname = PyStr ''acid'',
       current_Normal_Field_Fullname = Unbound\<rparr>)"
proof -
  let ?rs = "[(cells ''nan'' ''Table Name'' ''ACCT'' ''nan'' ''nan''),
         (cells ''nan'' ''Key Field Name'' ''Type'' ''Description'' ''nan''),
         (cells ''nan'' ''acid'' ''VARCHAR2(11)'' ''Account id'' ''nan'')]"
  have r: "reachable (snd (process_rows init_state ?rs))"
    by (rule reachable_process_rows[OF reachable.start])
  have e: "snd (process_rows init_state ?rs) =
      \<lparr>results = [''ACCT''], in_key_field_section = True, in_field_section = False,
       table_name = Some ''ACCT'',
       metadata = [(''ACCT'',
          \<lparr>Table_Name = ''ACCT'', Table_Synonym = None, Table_Description = None,
           Module_Name = None,
           Key_Fields = [(''acid'', \<lparr>data_type = ''VARCHAR2(11)'', description = ''Account id'',
                                     foreign_key = ''''\<rparr>)],
           Normal_Fields = []\<rparr>)],
       current_Key_Field_Fullname = PyStr ''acid'',
       current_Normal_Field_Fullname = Unbound\<rparr>"
    by code_simp
  show ?thesis
    unfolding e
    using blank_row_no_op[OF r[unfolded e], of "(cells ''1'' ''nan'' '''' ''nan'' ''x'')" None]
    by simp
qed

subsection \<open>Foreign keys\<close>

lemma lookup_field_store_field:
  "lookup_field (snd (store_field sec t n info s)) t' sec' n' = Some info' \<Longrightarrow>
     lookup_field s t' sec' n' = Some info' \<or> info' = info"
  by (auto simp: store_field_def lookup_field_update fields_of_set_fields update_conv'
      lookup_field_def split: option.splits if_splits)

lemma lookup_field_set_fullname:
  "lookup_field (set_fullname sec n s) = lookup_field s"
  by (simp add: lookup_field_def set_fullname_simps fun_eq_iff)

lemma lookup_field_header_row:
  "lookup_field (snd (header_row sec t s r nxt)) t' sec' n' = Some info' \<Longrightarrow>
     lookup_field s t' sec' n' = Some info' \<or> info' = new_field_info r"
  by (auto simp: header_row_def lookup_field_set_fullname
      dest!: lookup_field_store_field split: option.splits if_splits)

lemma lookup_field_continuation_row:
  "lookup_field (snd (continuation_row sec t s r)) t' sec' n' = Some info' \<Longrightarrow>
     \<exists>info. lookup_field s t' sec' n' = Some info \<and> data_type info = data_type info' \<and>
       foreign_key info = foreign_key info'"
  by (auto simp: continuation_row_def lookup_field_update fields_of_set_fields update_conv'
      lookup_field_def split: option.splits if_splits fullname.splits)

lemma lookup_field_update_table:
  assumes "\<And>m sec. fields_of sec (f m) = fields_of sec m"
  shows "lookup_field (snd (update_table f s)) = lookup_field s"
  using assms
  by (auto simp: update_table_def lookup_field_update lookup_field_def fun_eq_iff update_conv'
      split: option.splits)

lemma lookup_field_flags:
  "lookup_field (s\<lparr>in_key_field_section := a, in_field_section := b, current_Key_Field_Fullname := c\<rparr>) = lookup_field s"
  "lookup_field (s\<lparr>in_field_section := b, in_key_field_section := a, current_Normal_Field_Fullname := c\<rparr>) = lookup_field s"
  by (simp_all add: lookup_field_def fun_eq_iff)

text \<open>
  Claim C8. Whatever the state and the row, a field entry found in the key or normal
  fields of a table after the row either was there before with the same type and foreign
  key (only its description may have grown), or is the entry the row created: type of
  column 3, description of column 4, and as foreign key the empty string if column 5 is
  the literal \<open>nan\<close> and column 5 itself otherwise.
\<close>

theorem stored_foreign_key_normalised:
  assumes "lookup_field (snd (process_row s r nxt)) t sec n = Some info'"
  shows "(\<exists>info. lookup_field s t sec n = Some info \<and> data_type info = data_type info' \<and>
            foreign_key info = foreign_key info')
         \<or> info' = \<lparr>data_type = col3 r, description = col4 r,
                     foreign_key = (if col5 r = ''nan'' then '''' else col5 r)\<rparr>"
proof -
  have tn: "lookup_field (s\<lparr>table_name := Some (col3 r), results := results s @ [col3 r],
                 in_field_section := False, in_key_field_section := False,
                 metadata := AList.update (col3 r) (new_table (col3 r)) (metadata s)\<rparr>) t sec n
            = Some info' \<Longrightarrow> lookup_field s t sec n = Some info'"
    by (cases sec) (auto simp: lookup_field_def update_conv' new_table_def split: if_splits)
  have fr: "lookup_field (snd (field_row sec' t' s r nxt)) t sec n = Some info' \<Longrightarrow> ?thesis"
    for sec' t'
    by (auto simp: field_row_def new_field_info_def
        dest!: lookup_field_header_row lookup_field_continuation_row split: if_splits)
  show ?thesis
    using assms tn fr
    by (auto simp: process_row_def lookup_field_update_table fields_of_attr lookup_field_flags
        split: if_splits option.splits)
qed

theorem stored_foreign_key_normalised_witness:
  "lookup_field
     (snd (process_row
        (snd (process_rows init_state
           [cells ''nan'' ''Table Name'' ''ACCT'' ''nan'' ''nan'',
            cells ''nan'' ''Key Field Name'' ''Type'' ''Description'' ''Foreign Key'']))
        (cells ''nan'' ''acid'' ''VARCHAR2(11)'' ''Account id'' ''nan'') None))
     ''ACCT'' KeySec ''acid''
     = Some \<lparr>data_type = ''VARCHAR2(11)'', description = ''Account id'', foreign_key = ''''\<rparr>
   \<and> lookup_field
     (snd (process_rows init_state
           [cells ''nan'' ''Table Name'' ''ACCT'' ''nan'' ''nan'',
            cells ''nan'' ''Key Field Name'' ''Type'' ''Description'' ''Foreign Key'']))
     ''ACCT'' KeySec ''acid'' = None
   \<and> \<lparr>data_type = ''VARCHAR2(11)'', description = ''Account id'', foreign_key = ''''\<rparr> =
       \<lparr>data_type = col3 (cells ''nan'' ''acid'' ''VARCHAR2(11)'' ''Account id'' ''nan''),
        description = col4 (cells ''nan'' ''acid'' ''VARCHAR2(11)'' ''Account id'' ''nan''),
        foreign_key =
          (if col5 (cells ''nan'' ''acid'' ''VARCHAR2(11)'' ''Account id'' ''nan'') = ''nan''
           then '''' else col5 (cells ''nan'' ''acid'' ''VARCHAR2(11)'' ''Account id'' ''nan''))\<rparr>"
proof -
  let ?s = "snd (process_rows init_state
           [cells ''nan'' ''Table Name'' ''ACCT'' ''nan'' ''nan'',
            cells ''nan'' ''Key Field Name'' ''Type'' ''Description'' ''Foreign Key''])"
  let ?r = "cells ''nan'' ''acid'' ''VARCHAR2(11)'' ''Account id'' ''nan''"
  let ?i = "\<lparr>data_type = ''VARCHAR2(11)'', description = ''Account id'', foreign_key = ''''\<rparr>"
  have h: "lookup_field (snd (process_row ?s ?r None)) ''ACCT'' KeySec ''acid'' = Some ?i"
    by code_simp
  have n: "lookup_field ?s ''ACCT'' KeySec ''acid'' = None"
    by code_simp
  from stored_foreign_key_normalised[OF h] n
  have "?i = \<lparr>data_type = col3 ?r, description = col4 ?r,
                foreign_key = (if col5 ?r = ''nan'' then '''' else col5 ?r)\<rparr>"
    by (metis option.distinct(1))
  with h n show ?thesis by blast
qed

subsection \<open>The value returned\<close>

lemma keys_update_present:
  "map_of al k = Some v \<Longrightarrow> map fst (AList.update k v' al) = map fst al"
  by (rule map_update_same) simp_all

lemma keys_store_field: "map fst (metadata (snd (store_field sec t n info s))) = map fst (metadata s)"
  by (simp add: store_field_def keys_update_present split: option.split)

lemma keys_field_row: "map fst (metadata (snd (field_row sec t s r nxt))) = map fst (metadata s)"
  by (simp add: field_row_def header_row_def continuation_row_def keys_store_field
      set_fullname_simps keys_update_present split: option.split fullname.split)

lemma results_field_row: "results (snd (field_row sec t s r nxt)) = results s"
  by (simp add: field_row_def header_row_def continuation_row_def store_field_def
      set_fullname_simps split: option.split fullname.split)

lemma keys_update_table: "map fst (metadata (snd (update_table f s))) = map fst (metadata s)"
  by (simp add: update_table_def keys_update_present split: option.split)

lemma results_update_table: "results (snd (update_table f s)) = results s"
  by (simp add: update_table_def split: option.split)

lemma keys_follow_results_process_row:
  assumes "keys_follow_results s"
  shows "keys_follow_results (snd (process_row s r nxt))"
proof -
  have "set (map fst (metadata s)) = set (results s)"
    using assms by (simp add: keys_follow_results_def)
  then have "map fst (AList.update k v (metadata s)) = rev (remdups (rev (results s @ [k])))" for k v
    using assms by (auto simp: update_keys keys_follow_results_def)
  then show ?thesis
    using assms
    by (simp add: process_row_def keys_follow_results_def keys_update_table results_update_table
        keys_field_row results_field_row split: option.split)
qed

lemma keys_follow_results_process_rows:
  "keys_follow_results s \<Longrightarrow> keys_follow_results (snd (process_rows s rs))"
proof (induction rs arbitrary: s)
  case Nil
  then show ?case by simp
next
  case (Cons r rs)
  let ?p = "process_row s r (case rs of [] \<Rightarrow> None | next_row # _ \<Rightarrow> Some next_row)"
  have "keys_follow_results (snd ?p)" using Cons.prems by (rule keys_follow_results_process_row)
  then show ?case
    using Cons.IH[of "snd ?p"] by (cases ?p) (auto split: option.splits)
qed

lemma keys_follow_results_process_files:
  "keys_follow_results s \<Longrightarrow> keys_follow_results (process_files s docs)"
  by (induction docs arbitrary: s) (simp_all add: keys_follow_results_process_rows)

text \<open>
  Claim C10, as amended. For at least one document the function returns the dictionary
  \<open>metadata\<close> and nothing else; the list \<open>results\<close> of the table names in the order
  met, duplicates included, stays local. The keys of the returned dictionary are the
  names of that list, each once, in the order of their first occurrence.
\<close>

theorem returns_mapping_only:
  assumes "files \<noteq> []"
  shows "extract_table_details_from_markdown files =
           Return_metadata (metadata (process_files init_state files)) \<and>
         map fst (metadata (process_files init_state files)) =
           rev (remdups (rev (results (process_files init_state files))))"
proof -
  have "keys_follow_results init_state"
    by (simp add: keys_follow_results_def init_state_def)
  then have "keys_follow_results (process_files init_state files)"
    by (rule keys_follow_results_process_files)
  then show ?thesis
    using assms by (simp add: extract_table_details_from_markdown_def keys_follow_results_def)
qed

theorem returns_mapping_only_witness:
  "extract_table_details_from_markdown
     [[cells ''nan'' ''Table Name'' ''A'' ''nan'' ''nan'',
       cells ''nan'' ''Table Name'' ''B'' ''nan'' ''nan'',
       cells ''nan'' ''Table Name'' ''A'' ''nan'' ''nan'']]
   = Return_metadata (metadata (process_files init_state
     [[cells ''nan'' ''Table Name'' ''A'' ''nan'' ''nan'',
       cells ''nan'' ''Table Name'' ''B'' ''nan'' ''nan'',
       cells ''nan'' ''Table Name'' ''A'' ''nan'' ''nan'']]))"
proof -
  have h: "[[cells ''nan'' ''Table Name'' ''A'' ''nan'' ''nan'',
       cells ''nan'' ''Table Name'' ''B'' ''nan'' ''nan'',
       cells ''nan'' ''Table Name'' ''A'' ''nan'' ''nan'']] \<noteq> []"
    by simp
  from returns_mapping_only[OF h] show ?thesis by (rule conjunct1)
qed

text \<open>The claim C10 as stated fails: the list of names is not part of the value
  returned. Two inputs with different lists return the same value.\<close>

theorem side_list_not_returned_counterexample:
  "extract_table_details_from_markdown [[cells ''nan'' ''Table Name'' ''A'' ''nan'' ''nan'']] =
   extract_table_details_from_markdown
     [[cells ''nan'' ''Table Name'' ''A'' ''nan'' ''nan'',
       cells ''nan'' ''Table Name'' ''A'' ''nan'' ''nan'']]
   \<and> results (process_files init_state [[cells ''nan'' ''Table Name'' ''A'' ''nan'' ''nan'']]) = [''A'']
   \<and> results (process_files init_state
       [[cells ''nan'' ''Table Name'' ''A'' ''nan'' ''nan'',
         cells ''nan'' ''Table Name'' ''A'' ''nan'' ''nan'']]) = [''A'', ''A'']"
  by (simp add: extract_table_details_from_markdown_def process_row_def init_state_def)

end
